theory Spec2Isabelle
  imports Main "HOL-Library.Sublist"
begin

section \<open>Unscrobbler: configuration and the deletion predicate\<close>

text \<open>
  The embedding follows \<^verbatim>\<open>Unscrobbler.py\<close>. Python's unbounded integers are
  \<open>int\<close>, \<open>Optional[int]\<close> is \<open>int option\<close>, \<open>Set[str]\<close> is \<open>string set\<close>.
\<close>

definition EXIT_SUCCESS :: int where
  "EXIT_SUCCESS = 0"

definition EXIT_ERROR :: int where
  "EXIT_ERROR = 1"

text \<open>
  An open text file (\<open>IO[str]\<close>) as far as the program looks at it: whether it is
  closed. What is written to the deletion log is kept in the run state below.
\<close>

record io =
  closed :: bool

text \<open>
  The result of \<^verbatim>\<open>dateutil.parser.parse\<close>: a \<^verbatim>\<open>datetime\<close>. The program reads
  its \<^verbatim>\<open>year\<close> and \<^verbatim>\<open>hour\<close> attributes and prints it into the deletion log.
\<close>

record datetime =
  dt_year :: int
  dt_month :: int
  dt_day :: int
  dt_hour :: int
  dt_minute :: int

record UnscrobblerConfig =
  lastfm_username :: string
  lastfm_password :: string
  dry_run :: bool
  delete_artists :: "string set"
  delete_titles :: "string set"
  max_removals :: int
  log_file :: "io option"
  year :: "int option"
  first_hr :: "int option"
  last_hr :: "int option"
  start_page :: "int option"
  geckodriver_log_file :: "io option"
  max_page :: "int option"

text \<open>
  Python truthiness of an \<open>Optional[int]\<close> and of an \<open>Optional[str]\<close>: \<^verbatim>\<open>None\<close>,
  \<^verbatim>\<open>0\<close> and the empty string are false.
\<close>

fun truthy_int :: "int option \<Rightarrow> bool" where
  "truthy_int None = False"
| "truthy_int (Some n) = (n \<noteq> 0)"

fun truthy_str :: "string option \<Rightarrow> bool" where
  "truthy_str None = False"
| "truthy_str (Some s) = (s \<noteq> [])"

text \<open>
  The aliases of lines 74--78: \<^verbatim>\<open>use_hours\<close> and \<^verbatim>\<open>use_year\<close> test for
  \<^verbatim>\<open>None\<close>, not for truthiness.
\<close>

definition use_hours :: "UnscrobblerConfig \<Rightarrow> bool" where
  "use_hours cfg = (first_hr cfg \<noteq> None \<and> last_hr cfg \<noteq> None)"

definition use_year :: "UnscrobblerConfig \<Rightarrow> bool" where
  "use_year cfg = (year cfg \<noteq> None)"

text \<open>
  \<^verbatim>\<open>should_delete\<close> (lines 80--102). The local variable \<^verbatim>\<open>delete\<close> is assigned
  in sequence; each \<open>let\<close> below is one assignment of the source, in its order.
  Under \<open>use_hours\<close> both hours are present, so \<open>the\<close> reads them as the source
  does; likewise the year under \<open>use_year\<close>.
\<close>

definition should_delete :: "UnscrobblerConfig \<Rightarrow> string \<Rightarrow> string \<Rightarrow> datetime \<Rightarrow> bool" where
  "should_delete cfg track_name artist_name parsed_timestamp =
    (let start_hour = first_hr cfg;
         stop_hour = last_hr cfg;
         year_to_use = year cfg;
         delete0 = False;
         delete1 = (if artist_name \<in> delete_artists cfg then True else delete0);
         delete2 = (if track_name \<in> delete_titles cfg then True else delete1)
     in if delete2 then
          (let delete3 =
                 (if use_hours cfg then
                    (if the start_hour > the stop_hour then
                       (dt_hour parsed_timestamp \<ge> the start_hour
                          \<or> dt_hour parsed_timestamp \<le> the stop_hour)
                     else if the stop_hour > the start_hour then
                       (the start_hour \<le> dt_hour parsed_timestamp
                          \<and> dt_hour parsed_timestamp \<le> the stop_hour)
                     else dt_hour parsed_timestamp = the start_hour)
                  else delete2);
               delete4 =
                 (if use_year cfg then dt_year parsed_timestamp = the year_to_use
                  else delete3)
           in delete4)
        else delete2)"

section \<open>Command-line validation\<close>

text \<open>
  The namespace \<^verbatim>\<open>argparse\<close> returns (lines 252--280), with its defaults: the
  integer options without a default are \<open>None\<close> when the flag is absent.
\<close>

record cli_args =
  args_artists_file :: "string option"
  args_titles_file :: "string option"
  args_no_dry_run :: bool
  args_year :: "int option"
  args_start_page :: int
  args_max_page :: int
  args_first_hr :: "int option"
  args_last_hr :: "int option"
  args_log_dir :: "string option"
  args_max_removals :: int

text \<open>
  The one-line messages of the \<^verbatim>\<open>eprint\<close> calls of lines 284--300, one constructor
  per call.
\<close>

datatype stderr_line =
  NeedArtistsOrTitlesFile
  | YearSeemsIncorrect int
  | HoursMustBeUsedTogether
  | HoursMustBeBetween0And23
  | MaxRemovalsMustBePositive

text \<open>
  Lines 284--300: the chain of checks, each of which prints one line and calls
  \<^verbatim>\<open>sys.exit(EXIT_ERROR)\<close>. \<open>Some (line, status)\<close> is that exit; \<open>None\<close> means every
  check passed and the program goes on to read its inputs and call the core.
  The hour checks test truthiness (\<^verbatim>\<open>args.first_hr and not args.last_hr\<close>).
\<close>

definition cli_validate :: "cli_args \<Rightarrow> (stderr_line \<times> int) option" where
  "cli_validate args =
    (if \<not> truthy_str (args_artists_file args) \<and> \<not> truthy_str (args_titles_file args)
       then Some (NeedArtistsOrTitlesFile, EXIT_ERROR)
     else if args_year args \<noteq> None
          \<and> (the (args_year args) < 1970 \<or> the (args_year args) > 2999)
       then Some (YearSeemsIncorrect (the (args_year args)), EXIT_ERROR)
     else if (truthy_int (args_first_hr args) \<and> \<not> truthy_int (args_last_hr args))
          \<or> (truthy_int (args_last_hr args) \<and> \<not> truthy_int (args_first_hr args))
       then Some (HoursMustBeUsedTogether, EXIT_ERROR)
     else if (truthy_int (args_first_hr args)
              \<and> (the (args_first_hr args) < 0 \<or> the (args_first_hr args) > 23))
          \<or> (truthy_int (args_last_hr args)
              \<and> (the (args_last_hr args) < 0 \<or> the (args_last_hr args) > 23))
       then Some (HoursMustBeBetween0And23, EXIT_ERROR)
     else if args_max_removals args \<le> 0
       then Some (MaxRemovalsMustBePositive, EXIT_ERROR)
     else None)"

section \<open>The page driver and the run state\<close>

text \<open>
  The browser is outside the program. It is a state \<open>'w\<close> of any type, and the
  Selenium calls the program makes are the fields of a driver: each takes the
  browser state and returns what the call returns, with the new browser state
  where the call acts on the page. A \<open>bool\<close> result says whether the call
  returned (\<open>True\<close>) or raised an exception (\<open>False\<close>), for the calls the program
  wraps in \<^verbatim>\<open>try\<close>. The other calls are taken to return; a \<^verbatim>\<open>WebElement\<close> is a
  handle.
\<close>

type_synonym handle = nat

text \<open>What lines 184--194 read from a row: the two link texts, the title
  attribute of the timestamp and its parse.\<close>

record scrobble =
  sc_track_name :: string
  sc_artist_name :: string
  sc_timestamp_string :: string
  sc_parsed_timestamp :: datetime

record 'w driver =
  login_form :: "string \<Rightarrow> string \<Rightarrow> 'w \<Rightarrow> 'w"
    \<comment> \<open>lines 138--143: open the login page, type user name and password\<close>
  click_submit :: "'w \<Rightarrow> bool \<times> 'w"
    \<comment> \<open>line 148\<close>
  get_library_page :: "int \<Rightarrow> 'w \<Rightarrow> 'w"
    \<comment> \<open>\<^verbatim>\<open>driver.get(library_page_url)\<close>, lines 162--163 and 227\<close>
  find_sections :: "'w \<Rightarrow> handle list"
    \<comment> \<open>\<^verbatim>\<open>find_elements\<close> of \<^verbatim>\<open>section.tracklist-section\<close>\<close>
  find_rows :: "handle \<Rightarrow> 'w \<Rightarrow> handle list"
    \<comment> \<open>the \<^verbatim>\<open>tr\<close> elements of a section's table body\<close>
  read_row :: "handle \<Rightarrow> 'w \<Rightarrow> scrobble"
    \<comment> \<open>lines 184--194, on the page as it is when the row is reached\<close>
  reveal_row_menu :: "handle \<Rightarrow> 'w \<Rightarrow> 'w"
    \<comment> \<open>lines 198--204: scroll, move the pointer, click the timestamp\<close>
  click_more_button :: "handle \<Rightarrow> 'w \<Rightarrow> bool \<times> 'w"
    \<comment> \<open>lines 208--210\<close>
  click_delete_item :: "handle \<Rightarrow> 'w \<Rightarrow> bool \<times> 'w"
    \<comment> \<open>lines 211--213\<close>
  find_next_button :: "'w \<Rightarrow> handle option"
    \<comment> \<open>lines 230--231; \<open>None\<close> is \<^verbatim>\<open>NoSuchElementException\<close>\<close>
  get_href :: "handle \<Rightarrow> 'w \<Rightarrow> string option"
    \<comment> \<open>\<^verbatim>\<open>next_button.get_attribute("href")\<close>; \<open>None\<close> when the element is stale\<close>
  get_url :: "string \<Rightarrow> 'w \<Rightarrow> 'w"
    \<comment> \<open>\<^verbatim>\<open>driver.get\<close> of that address, line 239\<close>

text \<open>
  The driver calls a run makes, in order. Each is recorded together with the
  value the \<^verbatim>\<open>deletions\<close> counter has when the call is made.
\<close>

datatype event =
  ClickSubmit
  | GetLibraryPage int
  | ToDeleteExists
  | FindSections
  | FindRows handle
  | ReadRow handle
  | RevealRowMenu handle
  | ClickMoreButton handle
  | ClickDeleteItem handle
  | FindNextButton
  | GetUrl string

text \<open>The dictionary handed to \<^verbatim>\<open>_unscrobbler_log_deleted_item\<close>
  (lines 219--224); the parsed timestamp is kept as it is rather than printed.\<close>

record log_entry =
  le_track_title :: string
  le_artist_name :: string
  le_timestamp :: string
  le_timestamp_parsed :: datetime

text \<open>
  The local variables of \<^verbatim>\<open>unscrobbler\<close> that live across its loops, the browser,
  the lines written to the deletion log, and the record of driver calls.
  \<open>next_button\<close> is \<open>None\<close> while the local variable is unbound.
\<close>

record 'w run_state =
  world :: 'w
  deletions :: int
  library_page_num :: int
  next_button :: "handle option"
  log_written :: "log_entry list"
  trace :: "(event \<times> int) list"

datatype exn = UnboundLocalError | StaleElementReferenceException

text \<open>
  How a piece of the program ends: it falls through (\<open>Normal\<close>), executes
  \<^verbatim>\<open>return\<close> with a status, raises, or is still running when the iterations allowed
  to it are used up (\<open>OutOfFuel\<close>, with the state reached so far).
\<close>

datatype 's result = Normal 's | Return int 's | Raise exn 's | OutOfFuel 's

fun state_of :: "'s result \<Rightarrow> 's" where
  "state_of (Normal s) = s"
| "state_of (Return c s) = s"
| "state_of (Raise e s) = s"
| "state_of (OutOfFuel s) = s"


definition record_call :: "event \<Rightarrow> 'w run_state \<Rightarrow> 'w run_state" where
  "record_call e st = st\<lparr>trace := trace st @ [(e, deletions st)]\<rparr>"

text \<open>\<^verbatim>\<open>_unscrobbler_log_deleted_item\<close> (lines 52--55).\<close>

definition unscrobbler_log_deleted_item :: "io option \<Rightarrow> log_entry \<Rightarrow> log_entry list \<Rightarrow> log_entry list" where
  "unscrobbler_log_deleted_item logfile d written =
    (case logfile of
       None \<Rightarrow> written
     | Some f \<Rightarrow> if closed f then written else written @ [d])"

text \<open>The dictionary of lines 219--224, built from what was read from the row.\<close>

definition deleted_item :: "scrobble \<Rightarrow> log_entry" where
  "deleted_item s =
    \<lparr>le_track_title = sc_track_name s,
     le_artist_name = sc_artist_name s,
     le_timestamp = sc_timestamp_string s,
     le_timestamp_parsed = sc_parsed_timestamp s\<rparr>"

section \<open>The control loops of \<^verbatim>\<open>unscrobbler\<close>\<close>

text \<open>
  \<^verbatim>\<open>to_delete_exists\<close> (lines 105--133): the first row that \<open>should_delete\<close>
  accepts ends both loops with \<open>True\<close>.
\<close>

fun rows_to_delete :: "UnscrobblerConfig \<Rightarrow> 'w driver \<Rightarrow> 'w \<Rightarrow> handle list \<Rightarrow> bool" where
  "rows_to_delete cfg drv w [] = False"
| "rows_to_delete cfg drv w (row # rows) =
    (let s = read_row drv row w
     in if should_delete cfg (sc_track_name s) (sc_artist_name s) (sc_parsed_timestamp s)
        then True
        else rows_to_delete cfg drv w rows)"

fun sections_to_delete :: "UnscrobblerConfig \<Rightarrow> 'w driver \<Rightarrow> 'w \<Rightarrow> handle list \<Rightarrow> bool" where
  "sections_to_delete cfg drv w [] = False"
| "sections_to_delete cfg drv w (section # sections) =
    (if rows_to_delete cfg drv w (find_rows drv section w) then True
     else sections_to_delete cfg drv w sections)"

definition to_delete_exists :: "UnscrobblerConfig \<Rightarrow> 'w driver \<Rightarrow> 'w \<Rightarrow> bool" where
  "to_delete_exists cfg drv w = sections_to_delete cfg drv w (find_sections drv w)"

text \<open>
  The login loop (lines 144--157): \<^verbatim>\<open>submit_attempts\<close> counts up; a click that
  raises at the twelfth attempt or later returns \<open>EXIT_ERROR\<close>.
\<close>

function submit_loop :: "'w driver \<Rightarrow> int \<Rightarrow> 'w run_state \<Rightarrow> 'w run_state result" where
  "submit_loop drv submit_attempts st =
    (if fst (click_submit drv (world st))
     then Normal (record_call ClickSubmit (st\<lparr>world := snd (click_submit drv (world st))\<rparr>))
     else if submit_attempts + 1 \<ge> 12
     then Return EXIT_ERROR (record_call ClickSubmit (st\<lparr>world := snd (click_submit drv (world st))\<rparr>))
     else submit_loop drv (submit_attempts + 1)
            (record_call ClickSubmit (st\<lparr>world := snd (click_submit drv (world st))\<rparr>)))"
  by pat_completeness auto
termination
  by (relation "measure (\<lambda>(drv, submit_attempts, st). nat (12 - submit_attempts))") auto

declare submit_loop.simps [simp del]

text \<open>
  The retry loop around the two deleting clicks (lines 205--217). Nothing bounds
  it in the source: every exception is caught and logged and the loop goes round
  again, so the model counts its iterations against \<open>fuel\<close>. In a dry run the
  body is only the \<^verbatim>\<open>break\<close>.
\<close>

fun delete_retry :: "nat \<Rightarrow> UnscrobblerConfig \<Rightarrow> 'w driver \<Rightarrow> handle \<Rightarrow> 'w run_state \<Rightarrow> 'w run_state result" where
  "delete_retry 0 cfg drv row st = OutOfFuel st"
| "delete_retry (Suc fuel) cfg drv row st =
    (if \<not> dry_run cfg then
       (let st1 = record_call (ClickMoreButton row)
                    (st\<lparr>world := snd (click_more_button drv row (world st))\<rparr>)
        in if \<not> fst (click_more_button drv row (world st))
           then delete_retry fuel cfg drv row st1
           else
             (let st2 = record_call (ClickDeleteItem row)
                          (st1\<lparr>world := snd (click_delete_item drv row (world st1))\<rparr>)
              in if \<not> fst (click_delete_item drv row (world st1))
                 then delete_retry fuel cfg drv row st2
                 else Normal st2))
     else Normal st)"

text \<open>
  The loop over the rows of one table body (lines 179--225). The list of row
  handles was fetched before the loop; each row is read when the loop reaches it.
\<close>

fun scan_rows :: "nat \<Rightarrow> UnscrobblerConfig \<Rightarrow> 'w driver \<Rightarrow> handle list \<Rightarrow> 'w run_state \<Rightarrow> 'w run_state result" where
  "scan_rows fuel cfg drv [] st = Normal st"
| "scan_rows fuel cfg drv (row # rows) st =
    (if deletions st \<ge> max_removals cfg then Normal st
     else
       (let s = read_row drv row (world st);
            st1 = record_call (ReadRow row) st
        in if should_delete cfg (sc_track_name s) (sc_artist_name s) (sc_parsed_timestamp s)
           then
             (let st2 = record_call (RevealRowMenu row)
                          (st1\<lparr>world := reveal_row_menu drv row (world st1)\<rparr>)
              in case delete_retry fuel cfg drv row st2 of
                   Normal st3 \<Rightarrow>
                     scan_rows fuel cfg drv rows
                       (st3\<lparr>log_written :=
                               unscrobbler_log_deleted_item (log_file cfg) (deleted_item s)
                                 (log_written st3),
                            deletions := deletions st3 + 1\<rparr>)
                 | Return c st3 \<Rightarrow> Return c st3
                 | Raise e st3 \<Rightarrow> Raise e st3
                 | OutOfFuel st3 \<Rightarrow> OutOfFuel st3)
           else scan_rows fuel cfg drv rows st1))"

text \<open>The loop over the sections (lines 171--225); the rows of a section are
  looked up when the loop reaches the section.\<close>

fun scan_sections :: "nat \<Rightarrow> UnscrobblerConfig \<Rightarrow> 'w driver \<Rightarrow> handle list \<Rightarrow> 'w run_state \<Rightarrow> 'w run_state result" where
  "scan_sections fuel cfg drv [] st = Normal st"
| "scan_sections fuel cfg drv (section # sections) st =
    (if deletions st \<ge> max_removals cfg then Normal st
     else
       (case scan_rows fuel cfg drv (find_rows drv section (world st))
               (record_call (FindRows section) st) of
          Normal st1 \<Rightarrow> scan_sections fuel cfg drv sections st1
        | Return c st1 \<Rightarrow> Return c st1
        | Raise e st1 \<Rightarrow> Raise e st1
        | OutOfFuel st1 \<Rightarrow> OutOfFuel st1))"

text \<open>
  The inner \<^verbatim>\<open>while\<close> (lines 165--227): while the page shows a row to delete and
  the budget is not used up, one pass over the sections, then the page is loaded
  again.
\<close>

fun delete_on_page :: "nat \<Rightarrow> UnscrobblerConfig \<Rightarrow> 'w driver \<Rightarrow> 'w run_state \<Rightarrow> 'w run_state result" where
  "delete_on_page 0 cfg drv st = OutOfFuel st"
| "delete_on_page (Suc fuel) cfg drv st =
    (if to_delete_exists cfg drv (world st) \<and> deletions st < max_removals cfg
     then
       (case scan_sections fuel cfg drv (find_sections drv (world st))
               (record_call FindSections (record_call ToDeleteExists st)) of
          Normal st1 \<Rightarrow>
            delete_on_page fuel cfg drv
              (record_call (GetLibraryPage (library_page_num st1))
                 (st1\<lparr>world := get_library_page drv (library_page_num st1) (world st1)\<rparr>))
        | Return c st1 \<Rightarrow> Return c st1
        | Raise e st1 \<Rightarrow> Raise e st1
        | OutOfFuel st1 \<Rightarrow> OutOfFuel st1)
     else Normal (record_call ToDeleteExists st))"

text \<open>
  The outer \<^verbatim>\<open>while\<close> (lines 159--239). When no next-page link is found the
  exception is caught and logged and \<^verbatim>\<open>next_button\<close> keeps what it had: nothing
  on the first page, the link of an earlier page later. Line 239 then reads the
  variable.
\<close>

fun page_loop :: "nat \<Rightarrow> UnscrobblerConfig \<Rightarrow> 'w driver \<Rightarrow> 'w run_state \<Rightarrow> 'w run_state result" where
  "page_loop 0 cfg drv st = OutOfFuel st"
| "page_loop (Suc fuel) cfg drv st =
    (if deletions st < max_removals cfg then
       (case delete_on_page fuel cfg drv
               (record_call (GetLibraryPage (library_page_num st))
                  (st\<lparr>world := get_library_page drv (library_page_num st) (world st)\<rparr>)) of
          Normal st1 \<Rightarrow>
            (let st2 = (case find_next_button drv (world st1) of
                          Some b \<Rightarrow> record_call FindNextButton (st1\<lparr>next_button := Some b\<rparr>)
                        | None \<Rightarrow> record_call FindNextButton st1)
             in if truthy_int (max_page cfg) \<and> library_page_num st2 \<ge> the (max_page cfg)
                then Normal st2
                else
                  (let st3 = st2\<lparr>library_page_num := library_page_num st2 + 1\<rparr>
                   in case next_button st3 of
                        None \<Rightarrow> Raise UnboundLocalError st3
                      | Some b \<Rightarrow>
                          (case get_href drv b (world st3) of
                             None \<Rightarrow> Raise StaleElementReferenceException st3
                           | Some href \<Rightarrow>
                               page_loop fuel cfg drv
                                 (record_call (GetUrl href)
                                    (st3\<lparr>world := get_url drv href (world st3)\<rparr>)))))
        | Return c st1 \<Rightarrow> Return c st1
        | Raise e st1 \<Rightarrow> Raise e st1
        | OutOfFuel st1 \<Rightarrow> OutOfFuel st1)
     else Normal st)"

text \<open>
  \<^verbatim>\<open>unscrobbler\<close> (lines 58--243). \<open>start_state\<close> holds the locals as they
  are when the login loop begins (lines 67--69, 135, 138--143). \<open>fuel\<close> bounds the iterations of each of
  the unbounded loops; \<open>w\<close> is the browser as launched. The final log line reads
  the module's \<^verbatim>\<open>is_dry_run\<close>, which the script has set before the call.
\<close>

definition start_state :: "UnscrobblerConfig \<Rightarrow> 'w driver \<Rightarrow> 'w \<Rightarrow> 'w run_state" where
  "start_state cfg drv w =
    \<lparr>world = login_form drv (lastfm_username cfg) (lastfm_password cfg) w,
     deletions = 0,
     library_page_num = (if truthy_int (start_page cfg) \<and> the (start_page cfg) > 0
                         then the (start_page cfg) else 1),
     next_button = None,
     log_written = [],
     trace = []\<rparr>"

definition unscrobbler :: "nat \<Rightarrow> UnscrobblerConfig \<Rightarrow> 'w driver \<Rightarrow> 'w \<Rightarrow> 'w run_state result" where
  "unscrobbler fuel cfg drv w =
    (case submit_loop drv 0 (start_state cfg drv w) of
       Normal st1 \<Rightarrow>
         (case page_loop fuel cfg drv st1 of
            Normal st2 \<Rightarrow> Return EXIT_SUCCESS st2
          | Return c st2 \<Rightarrow> Return c st2
          | Raise e st2 \<Rightarrow> Raise e st2
          | OutOfFuel st2 \<Rightarrow> OutOfFuel st2)
     | Return c st1 \<Rightarrow> Return c st1
     | Raise e st1 \<Rightarrow> Raise e st1
     | OutOfFuel st1 \<Rightarrow> OutOfFuel st1)"

text \<open>
  The configuration \<^verbatim>\<open>__main__\<close> hands to \<^verbatim>\<open>unscrobbler\<close> (lines 332--346),
  from the arguments, the two credentials of the environment, the two sets read
  from the list files and the two log files.
\<close>

definition make_config ::
  "cli_args \<Rightarrow> string \<Rightarrow> string \<Rightarrow> string set \<Rightarrow> string set \<Rightarrow> io option \<Rightarrow> io option
     \<Rightarrow> UnscrobblerConfig" where
  "make_config args lastfm_user lastfm_pass artists titles logf geckodriver_logf =
    \<lparr>lastfm_username = lastfm_user,
     lastfm_password = lastfm_pass,
     dry_run = (\<not> args_no_dry_run args),
     delete_artists = artists,
     delete_titles = titles,
     max_removals = args_max_removals args,
     log_file = logf,
     year = args_year args,
     first_hr = args_first_hr args,
     last_hr = args_last_hr args,
     start_page = Some (args_start_page args),
     geckodriver_log_file = geckodriver_logf,
     max_page = Some (args_max_page args)\<rparr>"

section \<open>Reading the record of driver calls\<close>

text \<open>The two clicks that delete a scrobble on the site.\<close>

fun is_delete_click :: "event \<Rightarrow> bool" where
  "is_delete_click (ClickMoreButton row) = True"
| "is_delete_click (ClickDeleteItem row) = True"
| "is_delete_click e = False"



fun rows_deleted :: "event list \<Rightarrow> handle list" where
  "rows_deleted [] = []"
| "rows_deleted (ClickDeleteItem row # es) = row # rows_deleted es"
| "rows_deleted (e # es) = rows_deleted es"


text \<open>The budget at every recorded call and at the state reached.\<close>

definition budget_kept :: "UnscrobblerConfig \<Rightarrow> 'w run_state \<Rightarrow> bool" where
  "budget_kept cfg st =
    (deletions st \<le> max_removals cfg
     \<and> (\<forall>(e, d) \<in> set (trace st).
           d \<le> max_removals cfg \<and> (is_delete_click e \<longrightarrow> d < max_removals cfg)))"

text \<open>
  A property of the run state is kept by the steps of the loops when each of
  them keeps it: recording a call that is not a deleting click; a change of the
  browser, of the page number or of the next-page link; recording a deleting
  click, which is made only in a real run, below the budget, for a row that
  \<open>should_delete\<close> accepted; and the bookkeeping of one deletion, made below
  the budget for such a row.
\<close>

definition kept_by_steps :: "UnscrobblerConfig \<Rightarrow> ('w run_state \<Rightarrow> bool) \<Rightarrow> bool" where
  "kept_by_steps cfg I =
    ((\<forall>st e. I st \<longrightarrow> \<not> is_delete_click e \<longrightarrow> I (record_call e st))
     \<and> (\<forall>st w. I st \<longrightarrow> I (st\<lparr>world := w\<rparr>))
     \<and> (\<forall>st p. I st \<longrightarrow> I (st\<lparr>library_page_num := p\<rparr>))
     \<and> (\<forall>st b. I st \<longrightarrow> I (st\<lparr>next_button := b\<rparr>))
     \<and> (\<forall>st e (s::scrobble). I st \<longrightarrow> is_delete_click e \<longrightarrow> \<not> dry_run cfg \<longrightarrow>
            deletions st < max_removals cfg \<longrightarrow>
            should_delete cfg (sc_track_name s) (sc_artist_name s) (sc_parsed_timestamp s) \<longrightarrow>
            I (record_call e st))
     \<and> (\<forall>st (s::scrobble). I st \<longrightarrow> deletions st < max_removals cfg \<longrightarrow>
            should_delete cfg (sc_track_name s) (sc_artist_name s) (sc_parsed_timestamp s) \<longrightarrow>
            I (st\<lparr>log_written :=
                    unscrobbler_log_deleted_item (log_file cfg) (deleted_item s) (log_written st),
                  deletions := deletions st + 1\<rparr>)))"

text \<open>No deleting click among the recorded calls; and nothing deleted at all:
  the counter at zero, an empty log, no deleting click.\<close>

definition no_delete_clicks :: "'w run_state \<Rightarrow> bool" where
  "no_delete_clicks st = (\<forall>(e, d) \<in> set (trace st). \<not> is_delete_click e)"

definition nothing_deleted :: "'w run_state \<Rightarrow> bool" where
  "nothing_deleted st = (deletions st = 0 \<and> log_written st = [] \<and> no_delete_clicks st)"

text \<open>
  The bookkeeping of one pass over fetched rows in the specification's words,
  to compare the loop with: one increment of the counter and one log entry for
  each row that matches, in scan order, as far as the budget reaches.
  \<open>catalogue\<close> says what each row shows and \<open>d\<close> is the counter at the start
  of the pass; \<open>spec_log\<close> writes the entries of the rows counted.
\<close>

definition spec_counted_rows :: "UnscrobblerConfig \<Rightarrow> (handle \<Rightarrow> scrobble) \<Rightarrow> handle list \<Rightarrow> int \<Rightarrow> scrobble list" where
  "spec_counted_rows cfg catalogue rows d =
    take (nat (max_removals cfg - d))
      (filter (\<lambda>s. should_delete cfg (sc_track_name s) (sc_artist_name s) (sc_parsed_timestamp s))
         (map catalogue rows))"

definition spec_log :: "UnscrobblerConfig \<Rightarrow> scrobble list \<Rightarrow> log_entry list \<Rightarrow> log_entry list" where
  "spec_log cfg ss written =
    foldl (\<lambda>l s. unscrobbler_log_deleted_item (log_file cfg) (deleted_item s) l) written ss"

section \<open>A test double for the page driver\<close>

text \<open>
  One library page with one section. \<open>fx_shown\<close> are the rows the page shows, in
  display order; what a row says is fixed by a catalogue of scrobbles, so a row
  reads the same whatever else has been deleted. Clicking a delete item
  removes the row from the page. The first \<open>fx_submit_failures\<close> clicks on the
  login button and the first \<open>fx_click_failures\<close> clicks on a row's menu button
  raise.
\<close>

record page_fixture =
  fx_shown :: "handle list"
  fx_submit_failures :: nat
  fx_click_failures :: nat
  fx_has_next :: bool

definition fixture_driver :: "(handle \<Rightarrow> scrobble) \<Rightarrow> page_fixture driver" where
  "fixture_driver catalogue =
    \<lparr>login_form = (\<lambda>u p w. w),
     click_submit = (\<lambda>w. (fx_submit_failures w = 0,
                           w\<lparr>fx_submit_failures := fx_submit_failures w - 1\<rparr>)),
     get_library_page = (\<lambda>p w. w),
     find_sections = (\<lambda>w. [0]),
     find_rows = (\<lambda>s w. fx_shown w),
     read_row = (\<lambda>row w. catalogue row),
     reveal_row_menu = (\<lambda>row w. w),
     click_more_button = (\<lambda>row w. (fx_click_failures w = 0,
                                    w\<lparr>fx_click_failures := fx_click_failures w - 1\<rparr>)),
     click_delete_item = (\<lambda>row w. (True, w\<lparr>fx_shown := removeAll row (fx_shown w)\<rparr>)),
     find_next_button = (\<lambda>w. if fx_has_next w then Some 1000 else None),
     get_href = (\<lambda>b w. Some ''next''),
     get_url = (\<lambda>u w. w)\<rparr>"

definition scrobble_at :: "string \<Rightarrow> string \<Rightarrow> int \<Rightarrow> int \<Rightarrow> int \<Rightarrow> int \<Rightarrow> scrobble" where
  "scrobble_at artist title y m d h =
    \<lparr>sc_track_name = title, sc_artist_name = artist, sc_timestamp_string = ''as shown'',
     sc_parsed_timestamp = \<lparr>dt_year = y, dt_month = m, dt_day = d, dt_hour = h, dt_minute = 0\<rparr>\<rparr>"

text \<open>Three scrobbles: A/T1 on 2021-06-01 at 10:00, B/T2 on 2021-06-01 at 23:00
  and A/T3 on 2021-06-02 at 10:00, as rows 1, 2 and 3.\<close>

definition three_scrobbles :: "handle \<Rightarrow> scrobble" where
  "three_scrobbles row =
    (if row = 1 then scrobble_at ''A'' ''T1'' 2021 6 1 10
     else if row = 2 then scrobble_at ''B'' ''T2'' 2021 6 1 23
     else scrobble_at ''A'' ''T3'' 2021 6 2 10)"

definition three_rows :: page_fixture where
  "three_rows = \<lparr>fx_shown = [1, 2, 3], fx_submit_failures = 0, fx_click_failures = 0,
                 fx_has_next = False\<rparr>"

text \<open>A configuration that deletes artist A, for real, with a budget of ten, on
  page 1 only.\<close>

definition delete_A :: UnscrobblerConfig where
  "delete_A =
    \<lparr>lastfm_username = ''user'', lastfm_password = ''secret'', dry_run = False,
     delete_artists = {''A''}, delete_titles = {}, max_removals = 10,
     log_file = Some \<lparr>closed = False\<rparr>, year = None, first_hr = None, last_hr = None,
     start_page = Some 1, geckodriver_log_file = None, max_page = Some 1\<rparr>"

text \<open>Arguments as \<^verbatim>\<open>argparse\<close> gives them for \<^verbatim>\<open>-a artists.txt\<close> alone.\<close>

definition default_args :: cli_args where
  "default_args =
    \<lparr>args_artists_file = Some ''artists.txt'', args_titles_file = None,
     args_no_dry_run = False, args_year = None, args_start_page = 1, args_max_page = 20,
     args_first_hr = None, args_last_hr = None, args_log_dir = None,
     args_max_removals = 100\<rparr>"

section \<open>The deletion predicate\<close>

lemma should_delete_no_match:
  "artist_name \<notin> delete_artists cfg \<Longrightarrow> track_name \<notin> delete_titles cfg \<Longrightarrow>
   should_delete cfg track_name artist_name ts = False"
  by (simp add: should_delete_def)

text \<open>
  C2. For a record that matches by artist or by title, when both hours and a
  year are configured the result of \<open>should_delete\<close> is the year check alone:
  it is true exactly when the record's year is the configured year, and it is
  what the same configuration without the hours gives. A record that matches
  neither by artist nor by title is not deleted, whatever year and hours are
  configured.
\<close>

theorem year_check_is_final_word:
  "(artist_name \<in> delete_artists cfg \<or> track_name \<in> delete_titles cfg \<longrightarrow>
      first_hr cfg = Some start_hour \<longrightarrow> last_hr cfg = Some stop_hour \<longrightarrow> year cfg = Some y \<longrightarrow>
        should_delete cfg track_name artist_name ts = (dt_year ts = y)
        \<and> should_delete cfg track_name artist_name ts
            = should_delete (cfg\<lparr>first_hr := None, last_hr := None\<rparr>) track_name artist_name ts)
   \<and> (artist_name \<notin> delete_artists cfg \<longrightarrow> track_name \<notin> delete_titles cfg \<longrightarrow>
        should_delete cfg track_name artist_name ts = False)"
  by (auto simp add: should_delete_def use_year_def use_hours_def Let_def)

text \<open>
  The example of the specification: a scrobble of artist A at 23:00 on
  2020-01-01, hours 22 to 2 and year 2019. The hour is inside the range, and the
  year decides: the scrobble is kept. Without the year it would be deleted.
\<close>

theorem year_check_is_final_word_witness:
  "should_delete (delete_A\<lparr>first_hr := Some 22, last_hr := Some 2, year := Some 2019\<rparr>)
      ''T'' ''A'' \<lparr>dt_year = 2020, dt_month = 1, dt_day = 1, dt_hour = 23, dt_minute = 0\<rparr> = False
   \<and> should_delete (delete_A\<lparr>first_hr := Some 22, last_hr := Some 2\<rparr>)
      ''T'' ''A'' \<lparr>dt_year = 2020, dt_month = 1, dt_day = 1, dt_hour = 23, dt_minute = 0\<rparr> = True
   \<and> should_delete (delete_A\<lparr>first_hr := Some 22, last_hr := Some 2, year := Some 2020\<rparr>)
      ''T'' ''B'' \<lparr>dt_year = 2020, dt_month = 1, dt_day = 1, dt_hour = 23, dt_minute = 0\<rparr> = False"
proof -
  have "should_delete (delete_A\<lparr>first_hr := Some 22, last_hr := Some 2, year := Some 2019\<rparr>)
      ''T'' ''A'' \<lparr>dt_year = 2020, dt_month = 1, dt_day = 1, dt_hour = 23, dt_minute = 0\<rparr> = False"
    using year_check_is_final_word
          [where cfg = "delete_A\<lparr>first_hr := Some 22, last_hr := Some 2, year := Some 2019\<rparr>"
             and artist_name = "''A''" and track_name = "''T''" and start_hour = 22
             and stop_hour = 2 and y = 2019
             and ts = "\<lparr>dt_year = 2020, dt_month = 1, dt_day = 1, dt_hour = 23, dt_minute = 0\<rparr>"]
    by (simp add: delete_A_def)
  moreover
  have "should_delete (delete_A\<lparr>first_hr := Some 22, last_hr := Some 2\<rparr>)
      ''T'' ''A'' \<lparr>dt_year = 2020, dt_month = 1, dt_day = 1, dt_hour = 23, dt_minute = 0\<rparr> = True"
    by (simp add: delete_A_def should_delete_def use_hours_def use_year_def)
  moreover
  have "should_delete (delete_A\<lparr>first_hr := Some 22, last_hr := Some 2, year := Some 2020\<rparr>)
      ''T'' ''B'' \<lparr>dt_year = 2020, dt_month = 1, dt_day = 1, dt_hour = 23, dt_minute = 0\<rparr> = False"
    using year_check_is_final_word
          [where cfg = "delete_A\<lparr>first_hr := Some 22, last_hr := Some 2, year := Some 2020\<rparr>"
             and artist_name = "''B''" and track_name = "''T''"
             and ts = "\<lparr>dt_year = 2020, dt_month = 1, dt_day = 1, dt_hour = 23, dt_minute = 0\<rparr>"]
    by (simp add: delete_A_def)
  ultimately show ?thesis by simp
qed

text \<open>
  C5. For a record that matches by artist or by title, with both hours
  configured and no year, \<open>should_delete\<close> is true exactly when the record's
  hour satisfies the rule of three cases: with the first hour after the last
  (the range spans midnight) the hour is at or after the first or at or before
  the last; with the last after the first it lies between them, both included;
  with both equal it is that hour.
\<close>

theorem hour_range_three_cases:
  assumes "artist_name \<in> delete_artists cfg \<or> track_name \<in> delete_titles cfg"
    and "first_hr cfg = Some start_hour" and "last_hr cfg = Some stop_hour"
    and "year cfg = None"
  shows "should_delete cfg track_name artist_name ts =
           (if start_hour > stop_hour then dt_hour ts \<ge> start_hour \<or> dt_hour ts \<le> stop_hour
            else if stop_hour > start_hour then start_hour \<le> dt_hour ts \<and> dt_hour ts \<le> stop_hour
            else dt_hour ts = start_hour)"
  using assms by (auto simp add: should_delete_def use_year_def use_hours_def Let_def)

text \<open>Hours 22 to 2: 23:00 is deleted and 03:00 is kept. Hours 5 to 5: 05:00 is
  deleted and 06:00 is kept.\<close>

theorem hour_range_three_cases_witness:
  "should_delete (delete_A\<lparr>first_hr := Some 22, last_hr := Some 2\<rparr>) ''T'' ''A''
      \<lparr>dt_year = 2021, dt_month = 6, dt_day = 1, dt_hour = 23, dt_minute = 0\<rparr> = True
   \<and> should_delete (delete_A\<lparr>first_hr := Some 22, last_hr := Some 2\<rparr>) ''T'' ''A''
      \<lparr>dt_year = 2021, dt_month = 6, dt_day = 1, dt_hour = 3, dt_minute = 0\<rparr> = False
   \<and> should_delete (delete_A\<lparr>first_hr := Some 5, last_hr := Some 5\<rparr>) ''T'' ''A''
      \<lparr>dt_year = 2021, dt_month = 6, dt_day = 1, dt_hour = 5, dt_minute = 0\<rparr> = True
   \<and> should_delete (delete_A\<lparr>first_hr := Some 5, last_hr := Some 5\<rparr>) ''T'' ''A''
      \<lparr>dt_year = 2021, dt_month = 6, dt_day = 1, dt_hour = 6, dt_minute = 0\<rparr> = False"
  using hour_range_three_cases
          [where cfg = "delete_A\<lparr>first_hr := Some 22, last_hr := Some 2\<rparr>"
             and artist_name = "''A''" and track_name = "''T''"
             and start_hour = 22 and stop_hour = 2
             and ts = "\<lparr>dt_year = 2021, dt_month = 6, dt_day = 1, dt_hour = 23, dt_minute = 0\<rparr>"]
        hour_range_three_cases
          [where cfg = "delete_A\<lparr>first_hr := Some 22, last_hr := Some 2\<rparr>"
             and artist_name = "''A''" and track_name = "''T''"
             and start_hour = 22 and stop_hour = 2
             and ts = "\<lparr>dt_year = 2021, dt_month = 6, dt_day = 1, dt_hour = 3, dt_minute = 0\<rparr>"]
        hour_range_three_cases
          [where cfg = "delete_A\<lparr>first_hr := Some 5, last_hr := Some 5\<rparr>"
             and artist_name = "''A''" and track_name = "''T''"
             and start_hour = 5 and stop_hour = 5
             and ts = "\<lparr>dt_year = 2021, dt_month = 6, dt_day = 1, dt_hour = 5, dt_minute = 0\<rparr>"]
        hour_range_three_cases
          [where cfg = "delete_A\<lparr>first_hr := Some 5, last_hr := Some 5\<rparr>"
             and artist_name = "''A''" and track_name = "''T''"
             and start_hour = 5 and stop_hour = 5
             and ts = "\<lparr>dt_year = 2021, dt_month = 6, dt_day = 1, dt_hour = 6, dt_minute = 0\<rparr>"]
  by (simp add: delete_A_def)

section \<open>Command-line validation: the year and the hours\<close>

text \<open>
  C10. A year that is given is checked against a range. A year below 1970 or
  above 2999 ends the program before the core is called, with the status
  \<open>EXIT_ERROR\<close>, which is not zero, and one line on standard error; when a list
  file was named that line is the one about the year. A year from 1970 to 2999,
  both included, passes this check: validation goes on as if no year were given.
\<close>

theorem year_range_validated:
  assumes "args_year args = Some y"
  shows "(y < 1970 \<or> y > 2999 \<longrightarrow>
           (\<exists>line. cli_validate args = Some (line, EXIT_ERROR)) \<and> EXIT_ERROR \<noteq> 0
           \<and> (truthy_str (args_artists_file args) \<or> truthy_str (args_titles_file args) \<longrightarrow>
                cli_validate args = Some (YearSeemsIncorrect y, EXIT_ERROR)))
       \<and> (1970 \<le> y \<and> y \<le> 2999 \<longrightarrow>
           cli_validate args \<noteq> Some (YearSeemsIncorrect y, EXIT_ERROR)
           \<and> cli_validate args = cli_validate (args\<lparr>args_year := None\<rparr>))"
  using assms by (auto simp add: cli_validate_def EXIT_ERROR_def)

theorem year_range_validated_witness:
  "cli_validate (default_args\<lparr>args_year := Some 1969\<rparr>) = Some (YearSeemsIncorrect 1969, EXIT_ERROR)
   \<and> cli_validate (default_args\<lparr>args_year := Some 3000\<rparr>) = Some (YearSeemsIncorrect 3000, EXIT_ERROR)
   \<and> cli_validate (default_args\<lparr>args_year := Some 1970\<rparr>) = None
   \<and> cli_validate (default_args\<lparr>args_year := Some 2999\<rparr>) = None"
  using year_range_validated [of "default_args\<lparr>args_year := Some 1969\<rparr>" 1969]
        year_range_validated [of "default_args\<lparr>args_year := Some 3000\<rparr>" 3000]
        year_range_validated [of "default_args\<lparr>args_year := Some 1970\<rparr>" 1970]
        year_range_validated [of "default_args\<lparr>args_year := Some 2999\<rparr>" 2999]
  by (simp add: default_args_def cli_validate_def)

text \<open>
  C7, at the inputs where the program departs from it. The hour checks of
  lines 291--297 test the truth value of the hours, and hour 0 is false in
  Python. With \<^verbatim>\<open>--first-hr 0 --last-hr 5\<close>, or \<^verbatim>\<open>--first-hr 5 --last-hr 0\<close>, both
  flags given and both in range, validation ends the program with the line that
  the two flags must be used together. With \<^verbatim>\<open>--first-hr 0\<close> alone validation
  passes, and the core is configured with a first hour and no last hour.
\<close>

theorem hour_zero_is_taken_for_absent:
  "cli_validate (default_args\<lparr>args_first_hr := Some 0, args_last_hr := Some 5\<rparr>)
      = Some (HoursMustBeUsedTogether, EXIT_ERROR)
   \<and> cli_validate (default_args\<lparr>args_first_hr := Some 5, args_last_hr := Some 0\<rparr>)
      = Some (HoursMustBeUsedTogether, EXIT_ERROR)
   \<and> cli_validate (default_args\<lparr>args_first_hr := Some 0, args_last_hr := None\<rparr>) = None
   \<and> first_hr (make_config (default_args\<lparr>args_first_hr := Some 0, args_last_hr := None\<rparr>)
        user pass artists titles logf geckodriver_logf) = Some 0
   \<and> last_hr (make_config (default_args\<lparr>args_first_hr := Some 0, args_last_hr := None\<rparr>)
        user pass artists titles logf geckodriver_logf) = None"
  by (simp add: default_args_def cli_validate_def make_config_def)

section \<open>The run state under a recorded call\<close>

lemma deletions_record_call [simp]: "deletions (record_call e st) = deletions st"
  by (simp add: record_call_def)

lemma world_record_call [simp]: "world (record_call e st) = world st"
  by (simp add: record_call_def)

lemma log_written_record_call [simp]: "log_written (record_call e st) = log_written st"
  by (simp add: record_call_def)

lemma library_page_num_record_call [simp]:
  "library_page_num (record_call e st) = library_page_num st"
  by (simp add: record_call_def)

lemma next_button_record_call [simp]: "next_button (record_call e st) = next_button st"
  by (simp add: record_call_def)


section \<open>Properties kept by every step of a run\<close>

lemma kept_call:
  assumes "kept_by_steps cfg I" and "I st" and "\<not> is_delete_click e"
  shows "I (record_call e st)"
proof -
  note k = assms(1) [unfolded kept_by_steps_def]
  from k [THEN conjunct1, rule_format, OF assms(2) assms(3)] show ?thesis .
qed

lemma kept_world:
  assumes "kept_by_steps cfg I" and "I st"
  shows "I (st\<lparr>world := w\<rparr>)"
proof -
  note k = assms(1) [unfolded kept_by_steps_def]
  from k [THEN conjunct2, THEN conjunct1, rule_format, OF assms(2)] show ?thesis .
qed

lemma kept_page:
  assumes "kept_by_steps cfg I" and "I st"
  shows "I (st\<lparr>library_page_num := p\<rparr>)"
proof -
  note k = assms(1) [unfolded kept_by_steps_def]
  from k [THEN conjunct2, THEN conjunct2, THEN conjunct1, rule_format, OF assms(2)]
  show ?thesis .
qed

lemma kept_next:
  assumes "kept_by_steps cfg I" and "I st"
  shows "I (st\<lparr>next_button := b\<rparr>)"
proof -
  note k = assms(1) [unfolded kept_by_steps_def]
  from k [THEN conjunct2, THEN conjunct2, THEN conjunct2, THEN conjunct1, rule_format,
          OF assms(2)]
  show ?thesis .
qed

lemma kept_click:
  assumes "kept_by_steps cfg I" and "I st" and "is_delete_click e" and "\<not> dry_run cfg"
    and "deletions st < max_removals cfg"
    and "should_delete cfg (sc_track_name s) (sc_artist_name s) (sc_parsed_timestamp (s::scrobble))"
  shows "I (record_call e st)"
proof -
  note k = assms(1) [unfolded kept_by_steps_def]
  from k [THEN conjunct2, THEN conjunct2, THEN conjunct2, THEN conjunct2, THEN conjunct1,
          rule_format, OF assms(2) assms(3) assms(4) assms(5) assms(6)]
  show ?thesis .
qed

lemma kept_count:
  assumes "kept_by_steps cfg I" and "I st" and "deletions st < max_removals cfg"
    and "should_delete cfg (sc_track_name s) (sc_artist_name s) (sc_parsed_timestamp (s::scrobble))"
  shows "I (st\<lparr>log_written :=
              unscrobbler_log_deleted_item (log_file cfg) (deleted_item s) (log_written st),
            deletions := deletions st + 1\<rparr>)"
proof -
  note k = assms(1) [unfolded kept_by_steps_def]
  from k [THEN conjunct2, THEN conjunct2, THEN conjunct2, THEN conjunct2, THEN conjunct2,
          rule_format, OF assms(2) assms(3) assms(4)]
  show ?thesis .
qed

lemma kept_call_world:
  "kept_by_steps cfg I \<Longrightarrow> I st \<Longrightarrow> \<not> is_delete_click e \<Longrightarrow>
   I (record_call e (st\<lparr>world := w\<rparr>))"
  by (rule kept_call, assumption, rule kept_world)

lemma kept_click_world:
  "kept_by_steps cfg I \<Longrightarrow> I st \<Longrightarrow> is_delete_click e \<Longrightarrow> \<not> dry_run cfg \<Longrightarrow>
   deletions st < max_removals cfg \<Longrightarrow>
   should_delete cfg (sc_track_name s) (sc_artist_name s) (sc_parsed_timestamp (s::scrobble)) \<Longrightarrow>
   I (record_call e (st\<lparr>world := w\<rparr>))"
proof -
  assume K: "kept_by_steps cfg I" and i: "I st" and e: "is_delete_click e" and d: "\<not> dry_run cfg"
    and b: "deletions st < max_removals cfg"
    and m: "should_delete cfg (sc_track_name s) (sc_artist_name s) (sc_parsed_timestamp s)"
  have b': "deletions (st\<lparr>world := w\<rparr>) < max_removals cfg"
    using b by simp
  show ?thesis
    by (rule kept_click [OF K kept_world [OF K i] e d b' m])
qed

lemma deletions_delete_retry:
  "deletions (state_of (delete_retry fuel cfg drv row st)) = deletions st"
  by (induction fuel arbitrary: st) (simp_all add: Let_def)

lemma kept_delete_retry:
  assumes K: "kept_by_steps cfg I"
    and m: "should_delete cfg (sc_track_name s) (sc_artist_name s) (sc_parsed_timestamp (s::scrobble))"
  shows "I st \<Longrightarrow> deletions st < max_removals cfg \<Longrightarrow>
         I (state_of (delete_retry fuel cfg drv row st))"
proof (induction fuel arbitrary: st)
  case 0
  then show ?case by simp
next
  case (Suc fuel)
  show ?case
  proof (cases "dry_run cfg")
    case True
    with Suc.prems show ?thesis by simp
  next
    case False
    let ?st1 = "record_call (ClickMoreButton row)
                  (st\<lparr>world := snd (click_more_button drv row (world st))\<rparr>)"
    let ?st2 = "record_call (ClickDeleteItem row)
                  (?st1\<lparr>world := snd (click_delete_item drv row (world ?st1))\<rparr>)"
    have i1: "I ?st1"
      by (rule kept_click_world [OF K Suc.prems(1) _ False Suc.prems(2) m]) simp
    have d1: "deletions ?st1 < max_removals cfg"
      using Suc.prems by simp
    have i2: "I ?st2"
      by (rule kept_click_world [OF K i1 _ False d1 m]) simp
    have d2: "deletions ?st2 < max_removals cfg"
      using Suc.prems by simp
    show ?thesis
      using False i2 Suc.IH [OF i1 d1] Suc.IH [OF i2 d2]
      by (simp add: Let_def)
  qed
qed

lemma kept_scan_rows:
  assumes K: "kept_by_steps cfg I"
  shows "I st \<Longrightarrow> I (state_of (scan_rows fuel cfg drv rows st))"
proof (induction rows arbitrary: st)
  case Nil
  then show ?case by simp
next
  case (Cons row rows)
  let ?s = "read_row drv row (world st)"
  let ?st1 = "record_call (ReadRow row) st"
  let ?st2 = "record_call (RevealRowMenu row) (?st1\<lparr>world := reveal_row_menu drv row (world ?st1)\<rparr>)"
  let ?r = "delete_retry fuel cfg drv row ?st2"
  have i1: "I ?st1"
    by (rule kept_call [OF K Cons.prems]) simp_all
  show ?case
  proof (cases "deletions st \<ge> max_removals cfg")
    case True
    with Cons.prems show ?thesis by simp
  next
    case budget: False
    show ?thesis
    proof (cases "should_delete cfg (sc_track_name ?s) (sc_artist_name ?s) (sc_parsed_timestamp ?s)")
      case False
      with budget have "scan_rows fuel cfg drv (row # rows) st = scan_rows fuel cfg drv rows ?st1"
        by (simp add: Let_def)
      with Cons.IH [OF i1] show ?thesis by simp
    next
      case True
      have i2: "I ?st2"
        by (rule kept_call_world [OF K i1]) simp_all
      have d2: "deletions ?st2 < max_removals cfg"
        using budget by simp
      have i3: "I (state_of ?r)"
        using i2 d2 by (rule kept_delete_retry [OF K True])
      have d3: "deletions (state_of ?r) < max_removals cfg"
        using d2 by (simp add: deletions_delete_retry)
      show ?thesis
      proof (cases ?r)
        case (Normal st3)
        with i3 d3 have "I st3" and "deletions st3 < max_removals cfg"
          by simp_all
        then have "I (st3\<lparr>log_written :=
            unscrobbler_log_deleted_item (log_file cfg) (deleted_item ?s) (log_written st3),
            deletions := deletions st3 + 1\<rparr>)"
          by (rule kept_count [OF K _ _ True])
        from Cons.IH [OF this] show ?thesis
          using budget True Normal by (simp add: Let_def)
      next
        case (Return c st3)
        with i3 show ?thesis using budget True by (simp add: Let_def)
      next
        case (Raise e st3)
        with i3 show ?thesis using budget True by (simp add: Let_def)
      next
        case (OutOfFuel st3)
        with i3 show ?thesis using budget True by (simp add: Let_def)
      qed
    qed
  qed
qed

lemma kept_scan_sections:
  assumes K: "kept_by_steps cfg I"
  shows "I st \<Longrightarrow> I (state_of (scan_sections fuel cfg drv secs st))"
proof (induction secs arbitrary: st)
  case Nil
  then show ?case by simp
next
  case (Cons sec secs)
  let ?r = "scan_rows fuel cfg drv (find_rows drv sec (world st)) (record_call (FindRows sec) st)"
  have "I (record_call (FindRows sec) st)"
    by (rule kept_call [OF K Cons.prems]) simp_all
  then have i: "I (state_of ?r)"
    by (rule kept_scan_rows [OF K])
  show ?case
  proof (cases ?r)
    case (Normal st1)
    with i Cons.IH [of st1] show ?thesis using Cons.prems by simp
  qed (use i Cons.prems in \<open>simp_all\<close>)
qed

lemma kept_delete_on_page:
  assumes K: "kept_by_steps cfg I"
  shows "I st \<Longrightarrow> I (state_of (delete_on_page fuel cfg drv st))"
proof (induction fuel arbitrary: st)
  case 0
  then show ?case by simp
next
  case (Suc fuel)
  let ?r = "scan_sections fuel cfg drv (find_sections drv (world st))
              (record_call FindSections (record_call ToDeleteExists st))"
  have i0: "I (record_call ToDeleteExists st)"
    by (rule kept_call [OF K Suc.prems]) simp_all
  have "I (record_call FindSections (record_call ToDeleteExists st))"
    by (rule kept_call [OF K i0]) simp_all
  then have i: "I (state_of ?r)"
    by (rule kept_scan_sections [OF K])
  show ?case
  proof (cases ?r)
    case (Normal st1)
    with i have "I st1" by simp
    then have "I (record_call (GetLibraryPage (library_page_num st1))
                 (st1\<lparr>world := get_library_page drv (library_page_num st1) (world st1)\<rparr>))"
      by (rule kept_call_world [OF K]) simp_all
    from Suc.IH [OF this] show ?thesis using Normal i0 by simp
  qed (use i i0 in \<open>simp_all\<close>)
qed

lemma kept_page_loop:
  assumes K: "kept_by_steps cfg I"
  shows "I st \<Longrightarrow> I (state_of (page_loop fuel cfg drv st))"
proof (induction fuel arbitrary: st)
  case 0
  then show ?case by simp
next
  case (Suc fuel)
  let ?r = "delete_on_page fuel cfg drv
              (record_call (GetLibraryPage (library_page_num st))
                 (st\<lparr>world := get_library_page drv (library_page_num st) (world st)\<rparr>))"
  have "I (record_call (GetLibraryPage (library_page_num st))
                 (st\<lparr>world := get_library_page drv (library_page_num st) (world st)\<rparr>))"
    by (rule kept_call_world [OF K Suc.prems]) simp_all
  then have i: "I (state_of ?r)"
    by (rule kept_delete_on_page [OF K])
  show ?case
  proof (cases ?r)
    case (Normal st1)
    with i have i1: "I st1" by simp
    define st2 where "st2 = (case find_next_button drv (world st1) of
                          Some b \<Rightarrow> record_call FindNextButton (st1\<lparr>next_button := Some b\<rparr>)
                        | None \<Rightarrow> record_call FindNextButton st1)"
    have i2: "I st2"
    proof (cases "find_next_button drv (world st1)")
      case None
      then show ?thesis
        unfolding st2_def using kept_call [OF K i1, of FindNextButton] by simp
    next
      case (Some b)
      then show ?thesis
        unfolding st2_def
        using kept_call [OF K kept_next [OF K i1], of FindNextButton "Some b"] by simp
    qed
    have i3: "I (st2\<lparr>library_page_num := p\<rparr>)" for p
      using i2 by (rule kept_page [OF K])
    have i4: "I (state_of (page_loop fuel cfg drv
                (record_call (GetUrl href)
                   (st2\<lparr>library_page_num := p, world := w'\<rparr>))))" for p href w'
      by (rule Suc.IH, rule kept_call_world [OF K i3]) simp_all
    show ?thesis
      using Normal i2 i3 i4 Suc.prems
      by (simp add: Let_def st2_def [symmetric] split: option.splits)
  qed (use i Suc.prems in \<open>simp_all\<close>)
qed


lemma kept_submit_loop:
  assumes K: "kept_by_steps cfg I"
  shows "I st \<Longrightarrow> I (state_of (submit_loop drv n st))"
proof (induction drv n st rule: submit_loop.induct)
  case (1 drv submit_attempts st)
  let ?st1 = "record_call ClickSubmit (st\<lparr>world := snd (click_submit drv (world st))\<rparr>)"
  have i1: "I ?st1"
    by (rule kept_call_world [OF K "1.prems"]) simp
  show ?case
  proof (cases "fst (click_submit drv (world st)) \<or> submit_attempts + 1 \<ge> 12")
    case True
    with i1 show ?thesis
      by (subst submit_loop.simps) auto
  next
    case False
    then have "submit_loop drv submit_attempts st = submit_loop drv (submit_attempts + 1) ?st1"
      by (subst submit_loop.simps) simp
    moreover have "I (state_of (submit_loop drv (submit_attempts + 1) ?st1))"
      using False i1 by (intro "1.IH") simp_all
    ultimately show ?thesis by simp
  qed
qed

lemma kept_unscrobbler:
  assumes K: "kept_by_steps cfg I" and i0: "I (start_state cfg drv w)"
  shows "I (state_of (unscrobbler fuel cfg drv w))"
proof -
  have i1: "I (state_of (submit_loop drv 0 (start_state cfg drv w)))"
    using i0 by (rule kept_submit_loop [OF K])
  show ?thesis
  proof (cases "submit_loop drv 0 (start_state cfg drv w)")
    case (Normal st1)
    with i1 have "I (state_of (page_loop fuel cfg drv st1))"
      by (simp add: kept_page_loop [OF K])
    with Normal show ?thesis
      by (cases "page_loop fuel cfg drv st1") (simp_all add: unscrobbler_def)
  qed (use i1 in \<open>simp_all add: unscrobbler_def\<close>)
qed

section \<open>The removal budget\<close>

lemma validated_max_removals_positive:
  "cli_validate args = None \<Longrightarrow>
   0 < max_removals (make_config args user pass artists titles logf geckodriver_logf)"
  by (simp add: cli_validate_def make_config_def split: if_splits)

lemma budget_kept_by_steps: "kept_by_steps cfg (budget_kept cfg)"
  unfolding kept_by_steps_def budget_kept_def record_call_def
  by (intro conjI allI impI) auto

text \<open>
  C1. In a run with a budget that is not negative (validation lets only a
  positive \<^verbatim>\<open>--max-removals\<close> through), however long the run is followed: the
  counter of deletions is at most the budget in the state reached and at every
  driver call made on the way, and each of the two deleting clicks is made only
  while the counter is below the budget. The check is made before every
  single row, so the requests stop in the middle of a page and of a section.
\<close>

theorem deletions_never_exceed_budget:
  assumes "0 \<le> max_removals cfg"
  shows "deletions (state_of (unscrobbler fuel cfg drv w)) \<le> max_removals cfg
       \<and> (\<forall>(e, d) \<in> set (trace (state_of (unscrobbler fuel cfg drv w))).
             d \<le> max_removals cfg \<and> (is_delete_click e \<longrightarrow> d < max_removals cfg))"
proof -
  have "budget_kept cfg (start_state cfg drv w)"
    using assms by (simp add: budget_kept_def start_state_def)
  then have "budget_kept cfg (state_of (unscrobbler fuel cfg drv w))"
    by (rule kept_unscrobbler [OF budget_kept_by_steps])
  then show ?thesis
    by (simp add: budget_kept_def)
qed

text \<open>With a budget of one and two matching rows on the page, one row is deleted
  and the second matching row is not clicked.\<close>

theorem deletions_never_exceed_budget_witness:
  "deletions (state_of (unscrobbler 5 (delete_A\<lparr>max_removals := 1\<rparr>)
      (fixture_driver three_scrobbles) three_rows)) \<le> 1
   \<and> deletions (state_of (unscrobbler 5 (delete_A\<lparr>max_removals := 1\<rparr>)
      (fixture_driver three_scrobbles) three_rows)) = 1
   \<and> rows_deleted (map fst (trace (state_of (unscrobbler 5 (delete_A\<lparr>max_removals := 1\<rparr>)
      (fixture_driver three_scrobbles) three_rows)))) = [1]"
proof -
  have "0 \<le> max_removals (delete_A\<lparr>max_removals := 1\<rparr>)"
    by simp
  from deletions_never_exceed_budget [OF this, of 5 "fixture_driver three_scrobbles" three_rows]
  have "deletions (state_of (unscrobbler 5 (delete_A\<lparr>max_removals := 1\<rparr>)
          (fixture_driver three_scrobbles) three_rows)) \<le> 1"
    by simp
  moreover have "deletions (state_of (unscrobbler 5 (delete_A\<lparr>max_removals := 1\<rparr>)
      (fixture_driver three_scrobbles) three_rows)) = 1"
    by code_simp
  moreover have "rows_deleted (map fst (trace (state_of (unscrobbler 5
      (delete_A\<lparr>max_removals := 1\<rparr>) (fixture_driver three_scrobbles) three_rows)))) = [1]"
    by code_simp
  ultimately show ?thesis by simp
qed

section \<open>Empty lists\<close>

lemma never_matching_kept_by_steps:
  "\<forall>t a ts. \<not> should_delete cfg t a ts \<Longrightarrow> kept_by_steps cfg nothing_deleted"
  unfolding kept_by_steps_def nothing_deleted_def no_delete_clicks_def record_call_def
  by (intro conjI allI impI) auto

text \<open>
  C9. When both \<open>delete_artists\<close> and \<open>delete_titles\<close> are empty,
  \<open>should_delete\<close> is false for every record, whatever year and hours are
  configured; and a run, however long it is followed, deletes nothing: the
  counter stays at zero, nothing is written to the deletion log, and no deleting
  click is made.
\<close>

theorem empty_lists_delete_nothing:
  assumes "delete_artists cfg = {}" and "delete_titles cfg = {}"
  shows "should_delete cfg track_name artist_name ts = False
       \<and> deletions (state_of (unscrobbler fuel cfg drv w)) = 0
       \<and> log_written (state_of (unscrobbler fuel cfg drv w)) = []
       \<and> (\<forall>(e, d) \<in> set (trace (state_of (unscrobbler fuel cfg drv w))). \<not> is_delete_click e)"
proof -
  have never: "\<forall>t a ts. \<not> should_delete cfg t a ts"
    using assms by (simp add: should_delete_def)
  have "nothing_deleted (start_state cfg drv w)"
    by (simp add: nothing_deleted_def no_delete_clicks_def start_state_def)
  then have "nothing_deleted (state_of (unscrobbler fuel cfg drv w))"
    by (rule kept_unscrobbler [OF never_matching_kept_by_steps [OF never]])
  with never show ?thesis
    by (simp add: nothing_deleted_def no_delete_clicks_def)
qed

theorem empty_lists_delete_nothing_witness:
  "should_delete (delete_A\<lparr>delete_artists := {}, year := Some 2021\<rparr>) ''T1'' ''A''
      (sc_parsed_timestamp (three_scrobbles 1)) = False
   \<and> deletions (state_of (unscrobbler 5 (delete_A\<lparr>delete_artists := {}, year := Some 2021\<rparr>)
        (fixture_driver three_scrobbles) three_rows)) = 0
   \<and> log_written (state_of (unscrobbler 5 (delete_A\<lparr>delete_artists := {}, year := Some 2021\<rparr>)
        (fixture_driver three_scrobbles) three_rows)) = []"
  using empty_lists_delete_nothing
          [of "delete_A\<lparr>delete_artists := {}, year := Some 2021\<rparr>" "''T1''" "''A''"
              "sc_parsed_timestamp (three_scrobbles 1)" 5 "fixture_driver three_scrobbles"
              three_rows]
  by (simp add: delete_A_def)

section \<open>The two retry loops\<close>














section \<open>The last page\<close>

text \<open>
  C6, at an input where the program departs from it. The library has one page
  and no next-page link; the page limit is 20, the default of \<^verbatim>\<open>--max-page\<close>.
  After the page is done (two rows deleted, or none when nothing matches) the
  missing link is caught and logged as the last page, and the loop goes on to
  line 239, where \<^verbatim>\<open>next_button\<close> was never assigned: the run ends with
  \<open>UnboundLocalError\<close> and not with \<open>EXIT_SUCCESS\<close>. Only when the page limit
  is reached on that page (here a limit of 1) does the run report and return
  \<open>EXIT_SUCCESS\<close>.
\<close>

theorem last_page_without_next_link_raises:
  "(case unscrobbler 5 (delete_A\<lparr>max_page := Some 20\<rparr>) (fixture_driver three_scrobbles)
           three_rows of
      Raise e st \<Rightarrow> e = UnboundLocalError \<and> deletions st = 2 \<and> library_page_num st = 2
    | _ \<Rightarrow> False)
   \<and> (case unscrobbler 5 (delete_A\<lparr>max_page := Some 20, delete_artists := {''C''}\<rparr>)
           (fixture_driver three_scrobbles) three_rows of
      Raise e st \<Rightarrow> e = UnboundLocalError \<and> deletions st = 0
    | _ \<Rightarrow> False)
   \<and> (case unscrobbler 5 (delete_A\<lparr>max_page := Some 1\<rparr>) (fixture_driver three_scrobbles)
           three_rows of
      Return c st \<Rightarrow> c = EXIT_SUCCESS \<and> deletions st = 2
    | _ \<Rightarrow> False)"
  by code_simp


section \<open>Scanning a page and deleting from it\<close>








section \<open>Dry runs\<close>

lemma should_delete_dry_run [simp]:
  "should_delete (cfg\<lparr>dry_run := b\<rparr>) t a ts = should_delete cfg t a ts"
  by (simp add: should_delete_def use_hours_def use_year_def)

lemma spec_counted_rows_dry_run [simp]:
  "spec_counted_rows (cfg\<lparr>dry_run := b\<rparr>) catalogue rows d = spec_counted_rows cfg catalogue rows d"
  by (simp add: spec_counted_rows_def)

lemma spec_log_dry_run [simp]: "spec_log (cfg\<lparr>dry_run := b\<rparr>) ss written = spec_log cfg ss written"
  by (simp add: spec_log_def)

lemma spec_counted_rows_Nil [simp]: "spec_counted_rows cfg catalogue [] d = []"
  by (simp add: spec_counted_rows_def)





lemma delete_retry_dry_run:
  "dry_run cfg \<Longrightarrow> delete_retry (Suc fuel) cfg drv row st = Normal st"
  by simp







end
